theory Spec2Isabelle
  imports Main
begin

section \<open>Scaffolder (cli/plasmo/src/features/manifest-factory/scaffolder.ts)\<close>

text \<open>
  A shallow embedding of the class \<^verbatim>\<open>Scaffolder\<close>. JavaScript strings are
  sequences of code units and every operation used here (\<^verbatim>\<open>replaceAll\<close>,
  concatenation, comparison) works unit by unit, so a string is modelled as a
  \<^typ>\<open>string\<close>, a list of characters.
\<close>

subsection \<open>String.prototype.replaceAll with a string pattern\<close>

text \<open>
  \<^verbatim>\<open>html.replaceAll(key, value)\<close> with two strings follows ECMAScript: the
  matches are found left to right without overlap (after a match the search goes on
  behind it), and each match is replaced by \<^verbatim>\<open>GetSubstitution\<close> of the
  replacement text, in which \<^verbatim>\<open>$$\<close> stands for a dollar sign,
  \<^verbatim>\<open>$&\<close> for the matched text, \<^verbatim>\<open>$`\<close> for the part of the
  subject before the match and \<^verbatim>\<open>$'\<close> for the part behind it. A string
  pattern has no captures, so every other use of the dollar sign is literal.
\<close>

fun getSubstitution :: "string \<Rightarrow> string \<Rightarrow> string \<Rightarrow> string \<Rightarrow> string" where
  "getSubstitution matched pre post [] = []"
| "getSubstitution matched pre post [c] = [c]"
| "getSubstitution matched pre post (c # d # t) =
     (if c = CHR ''$'' \<and> d = CHR ''$'' then CHR ''$'' # getSubstitution matched pre post t
      else if c = CHR ''$'' \<and> d = CHR ''&'' then matched @ getSubstitution matched pre post t
      else if c = CHR ''$'' \<and> d = CHR 0x60 then pre @ getSubstitution matched pre post t
      else if c = CHR ''$'' \<and> d = CHR 0x27 then post @ getSubstitution matched pre post t
      else c # getSubstitution matched pre post (d # t))"

text \<open>
  The scan for a non-empty pattern. \<open>pre\<close> is the part of the subject already
  passed, which \<^verbatim>\<open>$`\<close> refers to.
\<close>

function replaceFrom :: "string \<Rightarrow> string \<Rightarrow> string \<Rightarrow> string \<Rightarrow> string" where
  "replaceFrom searchValue replaceValue pre [] = []"
| "replaceFrom searchValue replaceValue pre (c # cs) =
     (if searchValue \<noteq> [] \<and> take (length searchValue) (c # cs) = searchValue
      then getSubstitution searchValue pre (drop (length searchValue) (c # cs)) replaceValue
           @ replaceFrom searchValue replaceValue (pre @ searchValue)
               (drop (length searchValue) (c # cs))
      else c # replaceFrom searchValue replaceValue (pre @ [c]) cs)"
  by pat_completeness auto
termination
  by (relation "measure (\<lambda>(k, v, b, s). length s)") (auto simp: Suc_diff_le)

text \<open>
  The empty pattern matches before every code unit and at the end of the subject.
\<close>

fun replaceEmpty :: "string \<Rightarrow> string \<Rightarrow> string \<Rightarrow> string" where
  "replaceEmpty replaceValue pre [] = getSubstitution [] pre [] replaceValue"
| "replaceEmpty replaceValue pre (c # cs) =
     getSubstitution [] pre (c # cs) replaceValue
       @ c # replaceEmpty replaceValue (pre @ [c]) cs"

definition replaceAll :: "string \<Rightarrow> string \<Rightarrow> string \<Rightarrow> string" where
  "replaceAll str searchValue replaceValue =
     (if searchValue = [] then replaceEmpty replaceValue [] str
      else replaceFrom searchValue replaceValue [] str)"

text \<open>
  The positions at which a pattern occurs in a text, overlapping occurrences included.
  This is the yardstick the theorems on the closing-body marker are stated with.
\<close>

fun occurrences :: "string \<Rightarrow> string \<Rightarrow> nat list" where
  "occurrences key [] = (if key = [] then [0] else [])"
| "occurrences key (c # cs) =
     (if take (length key) (c # cs) = key then [0] else []) @ map Suc (occurrences key cs)"


subsection \<open>The substitution of \<^verbatim>\<open>#generate\<close>\<close>

text \<open>
  \<^verbatim>\<open>Object.entries(replaceMap).reduce((html, [key, value]) => html.replaceAll(key, value), templateContent)\<close>.
  The replace map is given as the list of its entries in the order
  \<^verbatim>\<open>Object.entries\<close> lists them. Every map this class builds has keys
  that are no array indices, so that order is the order in which the object literal
  names them.
\<close>

definition finalScaffold :: "string \<Rightarrow> (string \<times> string) list \<Rightarrow> string" where
  "finalScaffold templateContent replaceMap =
     foldl (\<lambda>html (key, value). replaceAll html key value) templateContent replaceMap"

subsection \<open>The project manifest and the imported functions\<close>

text \<open>
  \<^verbatim>\<open>type ExtensionUIPage = "popup" | "options" | "devtools" | "newtab"\<close>;
  \<open>pageName\<close> is the string a page kind stands for in a template literal.
\<close>

datatype ExtensionUIPage = popup | options | devtools | newtab

fun pageName :: "ExtensionUIPage \<Rightarrow> string" where
  "pageName popup = ''popup''"
| "pageName options = ''options''"
| "pageName devtools = ''devtools''"
| "pageName newtab = ''newtab''"

text \<open>
  The part of \<^verbatim>\<open>BaseFactory\<close> (\<^verbatim>\<open>./base\<close>, a type import) that the
  class reads: the candidate lists of \<^verbatim>\<open>projectPath\<close>, the directories of
  \<^verbatim>\<open>commonPath\<close> and \<^verbatim>\<open>templatePath\<close>, the mount extension,
  the project's name (the field \<^verbatim>\<open>name\<close>) and the directory of the built-in
  scaffold templates.
\<close>

record projectPath_t =
  popupIndexList :: "string list"
  optionsIndexList :: "string list"
  devtoolsIndexList :: "string list"
  newtabIndexList :: "string list"
  popupHtmlList :: "string list"
  optionsHtmlList :: "string list"
  devtoolsHtmlList :: "string list"
  newtabHtmlList :: "string list"

record commonPath_t =
  staticDirectory :: string
  dotPlasmoDirectory :: string

record templatePath_t =
  staticTemplatePath :: string

record BaseFactory =
  projectPath :: projectPath_t
  commonPath :: commonPath_t
  templatePath :: templatePath_t
  mountExt :: string
  manifestName :: string
  staticScaffoldPath :: string

text \<open>
  \<^verbatim>\<open>this.projectPath[`${uiPageName}IndexList`]\<close> and
  \<^verbatim>\<open>this.projectPath[`${uiPageName}HtmlList`]\<close>.
\<close>

fun indexList :: "projectPath_t \<Rightarrow> ExtensionUIPage \<Rightarrow> string list" where
  "indexList pp popup = popupIndexList pp"
| "indexList pp options = optionsIndexList pp"
| "indexList pp devtools = devtoolsIndexList pp"
| "indexList pp newtab = newtabIndexList pp"

fun htmlList :: "projectPath_t \<Rightarrow> ExtensionUIPage \<Rightarrow> string list" where
  "htmlList pp popup = popupHtmlList pp"
| "htmlList pp options = optionsHtmlList pp"
| "htmlList pp devtools = devtoolsHtmlList pp"
| "htmlList pp newtab = newtabHtmlList pp"

text \<open>
  The functions the module imports and whose code is not part of the file:
  \<^verbatim>\<open>resolve\<close>, \<^verbatim>\<open>relative\<close> and \<^verbatim>\<open>join\<close> of
  node's \<^verbatim>\<open>path\<close> (every call of \<^verbatim>\<open>resolve\<close> and
  \<^verbatim>\<open>join\<close> here has two arguments), \<^verbatim>\<open>toPosix\<close> of
  \<^verbatim>\<open>~features/helpers/path\<close> and \<^verbatim>\<open>isSupportedUiExt\<close> of
  \<^verbatim>\<open>./ui-library\<close>. They are parameters of the model: every theorem holds
  for whatever functions stand there. \<^verbatim>\<open>vLog\<close> only prints and is left out.
\<close>

record imports_t =
  path_resolve :: "string \<Rightarrow> string \<Rightarrow> string"
  path_relative :: "string \<Rightarrow> string \<Rightarrow> string"
  path_join :: "string \<Rightarrow> string \<Rightarrow> string"
  toPosix :: "string \<Rightarrow> string"
  isSupportedUiExt :: "string \<Rightarrow> bool"


subsection \<open>The file system and the scaffolder's cache\<close>

text \<open>
  The state the methods act on: the files (path to content) and the directories of the
  file system, and the private field \<^verbatim>\<open>#scaffoldCache\<close> of the object. Three
  logs record the calls of \<^verbatim>\<open>readFile\<close>, \<^verbatim>\<open>writeFile\<close> and
  \<^verbatim>\<open>copy\<close> in their order; nothing reads them, they are what the theorems on
  read counts and on the files produced are stated with.

  The name space is flat: a path is a file, a directory or nothing.
  \<^verbatim>\<open>readFile\<close> fails on a path that is no file, \<^verbatim>\<open>writeFile\<close> on a
  path that is a directory, \<^verbatim>\<open>ensureDir\<close> on a path that is a file.
  Permissions and missing parent directories are not modelled.
  \<^verbatim>\<open>copy\<close> of fs-extra copies a file, or a directory with all that is below
  it; of a copied directory the model keeps the target directory and the call, not the
  files below it.
\<close>

datatype error =
  ReadError string | WriteError string | MkdirError string | CopyError string

record world =
  files :: "string \<rightharpoonup> string"
  dirs :: "string set"
  scaffoldCache :: "string \<rightharpoonup> string"
  reads :: "string list"
  written :: "(string \<times> string) list"
  copied :: "(string \<times> string) list"

text \<open>
  An asynchronous method is a function from the state to a result (an error or a
  value) and the state it leaves; \<^verbatim>\<open>await\<close> is \<open>bindIO\<close>. A rejected
  promise keeps the effects that happened before it.
\<close>

type_synonym 'a io = "world \<Rightarrow> (error + 'a) \<times> world"

definition returnIO :: "'a \<Rightarrow> 'a io" where
  "returnIO v s = (Inr v, s)"

definition bindIO :: "'a io \<Rightarrow> ('a \<Rightarrow> 'b io) \<Rightarrow> 'b io" where
  "bindIO m f s = (case m s of (Inl e, s1) \<Rightarrow> (Inl e, s1) | (Inr v, s1) \<Rightarrow> f v s1)"

text \<open>
  \<^verbatim>\<open>Promise.all\<close>: every operation runs to its end, also when another one
  has failed, and the whole fails if one of them did. The model runs the operations
  one after the other in the order of the array, which is one of the schedules the
  event loop may choose. \<open>promiseAll2\<close> is \<^verbatim>\<open>Promise.all\<close> of two
  promises of different types.
\<close>

fun promiseAll :: "'a io list \<Rightarrow> 'a list io" where
  "promiseAll [] s = (Inr [], s)"
| "promiseAll (p # ps) s =
     (case p s of (r, s1) \<Rightarrow>
        (case promiseAll ps s1 of (rs, s2) \<Rightarrow>
           ((case r of Inl e \<Rightarrow> Inl e
             | Inr v \<Rightarrow> (case rs of Inl e \<Rightarrow> Inl e | Inr vs \<Rightarrow> Inr (v # vs))), s2)))"

definition promiseAll2 :: "'a io \<Rightarrow> 'b io \<Rightarrow> ('a \<times> 'b) io" where
  "promiseAll2 p q s =
     (case p s of (r, s1) \<Rightarrow>
        (case q s1 of (r', s2) \<Rightarrow>
           ((case r of Inl e \<Rightarrow> Inl e
             | Inr v \<Rightarrow> (case r' of Inl e \<Rightarrow> Inl e | Inr w \<Rightarrow> Inr (v, w))), s2)))"

definition existsSync :: "world \<Rightarrow> string \<Rightarrow> bool" where
  "existsSync s p = (files s p \<noteq> None \<or> p \<in> dirs s)"

definition readFile :: "string \<Rightarrow> string io" where
  "readFile p s =
     (case files s p of
        None \<Rightarrow> (Inl (ReadError p), s\<lparr>reads := reads s @ [p]\<rparr>)
      | Some content \<Rightarrow> (Inr content, s\<lparr>reads := reads s @ [p]\<rparr>))"

definition writeFile :: "string \<Rightarrow> string \<Rightarrow> unit io" where
  "writeFile p content s =
     (if p \<in> dirs s then (Inl (WriteError p), s)
      else (Inr (), s\<lparr>files := (files s)(p \<mapsto> content),
                       written := written s @ [(p, content)]\<rparr>))"

definition ensureDir :: "string \<Rightarrow> unit io" where
  "ensureDir p s =
     (if files s p \<noteq> None then (Inl (MkdirError p), s)
      else (Inr (), s\<lparr>dirs := insert p (dirs s)\<rparr>))"

definition copy :: "string \<Rightarrow> string \<Rightarrow> unit io" where
  "copy src dest s =
     (if src \<in> dirs s then
        (if files s dest \<noteq> None then (Inl (CopyError dest), s)
         else (Inr (), s\<lparr>dirs := insert dest (dirs s),
                          copied := copied s @ [(src, dest)]\<rparr>))
      else (case files s src of
              None \<Rightarrow> (Inl (CopyError src), s)
            | Some content \<Rightarrow>
                (if dest \<in> dirs s then (Inl (CopyError dest), s)
                 else (Inr (), s\<lparr>files := (files s)(dest \<mapsto> content),
                                  copied := copied s @ [(src, dest)]\<rparr>))))"

subsection \<open>The methods of the class\<close>

text \<open>\<^verbatim>\<open>#generate\<close>: substitute, then write.\<close>

definition generate :: "string \<Rightarrow> string \<Rightarrow> (string \<times> string) list \<Rightarrow> unit io" where
  "generate templateContent outputFilePath replaceMap =
     writeFile outputFilePath (finalScaffold templateContent replaceMap)"

definition copyGenerate :: "string \<Rightarrow> string \<Rightarrow> (string \<times> string) list \<Rightarrow> unit io" where
  "copyGenerate filePath outputFilePath replaceMap =
     bindIO (readFile filePath)
       (\<lambda>templateContent. generate templateContent outputFilePath replaceMap)"

text \<open>
  \<^verbatim>\<open>this.#scaffoldCache[fileName]\<close> where it is truthy: a missing entry
  (\<^verbatim>\<open>undefined\<close>) and the empty string are falsy. The cache object inherits
  the properties of \<^verbatim>\<open>Object.prototype\<close>; the file names this class asks for
  start with \<^verbatim>\<open>index\<close> or \<^verbatim>\<open>content-script-ui-mount\<close> and are
  none of them, so the cache is the map of its own entries.
\<close>

definition cached :: "world \<Rightarrow> string \<Rightarrow> string option" where
  "cached s fileName =
     (case scaffoldCache s fileName of
        None \<Rightarrow> None
      | Some content \<Rightarrow> (if content = [] then None else Some content))"

definition cachedGenerate ::
  "imports_t \<Rightarrow> BaseFactory \<Rightarrow> string \<Rightarrow> string \<Rightarrow> (string \<times> string) list \<Rightarrow> unit io" where
  "cachedGenerate I pm fileName outputFilePath replaceMap =
     bindIO
       (\<lambda>s. case cached s fileName of
              None \<Rightarrow>
                bindIO (readFile (path_resolve I (staticScaffoldPath pm) fileName))
                  (\<lambda>content s1.
                     (Inr content,
                      s1\<lparr>scaffoldCache := (scaffoldCache s1)(fileName \<mapsto> content)\<rparr>)) s
            | Some content \<Rightarrow> (Inr content, s))
       (\<lambda>content. generate content outputFilePath replaceMap)"

definition mirrorGenerate ::
  "imports_t \<Rightarrow> BaseFactory \<Rightarrow> string \<Rightarrow> string \<Rightarrow> (string \<times> string) list \<Rightarrow> unit io" where
  "mirrorGenerate I pm fileName staticModulePath replaceMap =
     cachedGenerate I pm fileName (path_resolve I staticModulePath fileName) replaceMap"

text \<open>
  The parameter \<^verbatim>\<open>htmlFile = "" as string | false\<close>: left out (or
  \<^verbatim>\<open>undefined\<close>), \<^verbatim>\<open>false\<close>, or a string. \<open>truthyPath\<close> is
  the path the condition \<^verbatim>\<open>htmlFile ? ... : ...\<close> lets through: a left-out
  argument takes the default \<^verbatim>\<open>""\<close>, and \<^verbatim>\<open>""\<close> and
  \<^verbatim>\<open>false\<close> are falsy.
\<close>

datatype htmlFile_t = HtmlOmitted | HtmlFalse | HtmlFile string

fun truthyPath :: "htmlFile_t \<Rightarrow> string option" where
  "truthyPath HtmlOmitted = None"
| "truthyPath HtmlFalse = None"
| "truthyPath (HtmlFile p) = (if p = [] then None else Some p)"

definition bodyInjection :: "string \<Rightarrow> string" where
  \<open>bodyInjection scriptMountPath =
     ''<div id="root"></div><script src="'' @ scriptMountPath @ ''" type="module"></script>''\<close>

definition generateHtml ::
  "imports_t \<Rightarrow> BaseFactory \<Rightarrow> string \<Rightarrow> string \<Rightarrow> htmlFile_t \<Rightarrow> unit io" where
  "generateHtml I pm outputPath scriptMountPath htmlFile =
     (let templateReplace =
            [(''__plasmo_static_index_title__'', manifestName pm),
             (''__plasmo_static_script__'', scriptMountPath)]
      in case truthyPath htmlFile of
           Some p \<Rightarrow>
             copyGenerate p outputPath
               (templateReplace @
                [(''</body>'', bodyInjection scriptMountPath @ ''</body>'')])
         | None \<Rightarrow> cachedGenerate I pm ''index.html'' outputPath templateReplace)"

definition createPageHtml ::
  "imports_t \<Rightarrow> BaseFactory \<Rightarrow> ExtensionUIPage \<Rightarrow> htmlFile_t \<Rightarrow> unit io" where
  "createPageHtml I pm uiPageName htmlFile =
     (let outputHtmlPath =
            path_resolve I (dotPlasmoDirectory (commonPath pm)) (pageName uiPageName @ ''.html'');
          scriptMountPath = ''./static/'' @ pageName uiPageName @ mountExt pm
      in generateHtml I pm outputHtmlPath scriptMountPath htmlFile)"

definition copyStaticCommon :: "imports_t \<Rightarrow> BaseFactory \<Rightarrow> unit io" where
  "copyStaticCommon I pm =
     (let templateCommonDirectory =
            path_resolve I (staticTemplatePath (templatePath pm)) ''common'';
          staticCommonDirectory =
            path_resolve I (staticDirectory (commonPath pm)) ''common''
      in copy templateCommonDirectory staticCommonDirectory)"

text \<open>
  \<^verbatim>\<open>#initUiPageTemplate\<close> in two parts, split at its first
  \<^verbatim>\<open>await\<close>. \<open>resolvePage\<close> is the part that runs when the method is
  called: the two scans \<^verbatim>\<open>indexList.find(existsSync)\<close> and
  \<^verbatim>\<open>htmlList.find(existsSync)\<close>, which change nothing (\<open>None\<close> is
  \<^verbatim>\<open>undefined\<close>). \<open>generatePage\<close> is the rest, from
  \<^verbatim>\<open>await ensureDir(staticDirectory)\<close> on.
\<close>

definition resolvePage ::
  "BaseFactory \<Rightarrow> ExtensionUIPage \<Rightarrow> world \<Rightarrow> string option \<times> string option" where
  "resolvePage pm uiPageName s =
     (find (existsSync s) (indexList (projectPath pm) uiPageName),
      find (existsSync s) (htmlList (projectPath pm) uiPageName))"

definition indexImport ::
  "imports_t \<Rightarrow> BaseFactory \<Rightarrow> ExtensionUIPage \<Rightarrow> string option \<Rightarrow> string" where
  "indexImport I pm uiPageName indexFile =
     (case indexFile of
        Some f \<Rightarrow> toPosix I (path_relative I (staticDirectory (commonPath pm)) f)
      | None \<Rightarrow> ''~'' @ pageName uiPageName)"

definition generatePage ::
  "imports_t \<Rightarrow> BaseFactory \<Rightarrow> ExtensionUIPage \<Rightarrow> string option \<times> string option \<Rightarrow> bool io" where
  "generatePage I pm uiPageName found =
     (case found of (indexFile, htmlFile) \<Rightarrow>
        (let staticDir = staticDirectory (commonPath pm) in
         bindIO (ensureDir staticDir) (\<lambda>_.
           (let hasIndex = (indexFile \<noteq> None);
                uiPageModulePath =
                  path_resolve I staticDir (pageName uiPageName @ mountExt pm)
            in bindIO
                 (promiseAll
                    [cachedGenerate I pm (''index'' @ mountExt pm) uiPageModulePath
                       [(''__plasmo_import_module__'', indexImport I pm uiPageName indexFile)],
                     createPageHtml I pm uiPageName
                       (case htmlFile of None \<Rightarrow> HtmlOmitted | Some p \<Rightarrow> HtmlFile p)])
                 (\<lambda>_. returnIO hasIndex)))))"


text \<open>
  \<^verbatim>\<open>init\<close>. The array of \<^verbatim>\<open>Promise.all\<close> is built by calling the five
  methods one after the other, and each call runs up to its first \<^verbatim>\<open>await\<close>
  before the next is made: the four pairs of scans see the files as they are when
  \<^verbatim>\<open>init\<close> is called, before anything is written. The destructuring
  \<^verbatim>\<open>[_, ...uiPagesResult]\<close> drops the result of the copy.
\<close>

definition init :: "imports_t \<Rightarrow> BaseFactory \<Rightarrow> bool list io" where
  "init I pm s =
     bindIO
       (promiseAll2 (copyStaticCommon I pm)
          (promiseAll
             [generatePage I pm popup (resolvePage pm popup s),
              generatePage I pm options (resolvePage pm options s),
              generatePage I pm newtab (resolvePage pm newtab s),
              generatePage I pm devtools (resolvePage pm devtools s)]))
       (\<lambda>(_, uiPagesResult). returnIO uiPagesResult) s"



subsection \<open>Notions the theorems are stated with\<close>

text \<open>
  The text a call of \<^verbatim>\<open>#cachedGenerate\<close> for a file name works with in a
  state: the cached text where the cache holds a truthy one, the content of the template
  file otherwise, \<open>None\<close> where there is neither.
\<close>

definition templateOf :: "imports_t \<Rightarrow> BaseFactory \<Rightarrow> world \<Rightarrow> string \<Rightarrow> string option" where
  "templateOf I pm s fileName =
     (case cached s fileName of
        Some content \<Rightarrow> Some content
      | None \<Rightarrow> files s (path_resolve I (staticScaffoldPath pm) fileName))"

text \<open>
  \<open>extends I pm s ws s'\<close>: the state \<open>s'\<close> differs from \<open>s\<close> by the
  writes \<open>ws\<close> (and by reads and cache entries): the writes are logged and made,
  directories and copies are as before, every template that could be loaded still can,
  and a template whose file none of the writes hit has the text it had.
\<close>

definition extends ::
  "imports_t \<Rightarrow> BaseFactory \<Rightarrow> world \<Rightarrow> (string \<times> string) list \<Rightarrow> world \<Rightarrow> bool" where
  "extends I pm s ws s' =
     (written s' = written s @ ws
      \<and> files s' = foldl (\<lambda>f (p, c). f(p \<mapsto> c)) (files s) ws
      \<and> dirs s' = dirs s
      \<and> copied s' = copied s
      \<and> (\<forall>g. templateOf I pm s g \<noteq> None \<longrightarrow> templateOf I pm s' g \<noteq> None)
      \<and> (\<forall>g. path_resolve I (staticScaffoldPath pm) g \<notin> fst ` set ws
             \<longrightarrow> templateOf I pm s' g = templateOf I pm s g))"

text \<open>
  For a canonical page: the argument \<^verbatim>\<open>createPageHtml\<close> gets for the HTML
  file the scan found (\<^verbatim>\<open>undefined\<close> counts as left out), the file the
  HTML is generated from (the user's file, or the built-in template), its text in a
  state, the replace map \<^verbatim>\<open>generateHtml\<close> builds, and the two paths the
  page is written to.
\<close>

definition htmlFileOf :: "string option \<Rightarrow> htmlFile_t" where
  "htmlFileOf found = (case found of None \<Rightarrow> HtmlOmitted | Some p \<Rightarrow> HtmlFile p)"

definition htmlSourcePath :: "imports_t \<Rightarrow> BaseFactory \<Rightarrow> htmlFile_t \<Rightarrow> string" where
  "htmlSourcePath I pm htmlFile =
     (case truthyPath htmlFile of
        Some p \<Rightarrow> p
      | None \<Rightarrow> path_resolve I (staticScaffoldPath pm) ''index.html'')"

definition htmlSource :: "imports_t \<Rightarrow> BaseFactory \<Rightarrow> world \<Rightarrow> htmlFile_t \<Rightarrow> string option" where
  "htmlSource I pm s htmlFile =
     (case truthyPath htmlFile of
        Some p \<Rightarrow> files s p
      | None \<Rightarrow> templateOf I pm s ''index.html'')"

definition htmlReplaceMap :: "BaseFactory \<Rightarrow> string \<Rightarrow> htmlFile_t \<Rightarrow> (string \<times> string) list" where
  "htmlReplaceMap pm scriptMountPath htmlFile =
     [(''__plasmo_static_index_title__'', manifestName pm),
      (''__plasmo_static_script__'', scriptMountPath)]
     @ (case truthyPath htmlFile of
          Some p \<Rightarrow> [(''</body>'', bodyInjection scriptMountPath @ ''</body>'')]
        | None \<Rightarrow> [])"

definition pageScriptPath :: "imports_t \<Rightarrow> BaseFactory \<Rightarrow> ExtensionUIPage \<Rightarrow> string" where
  "pageScriptPath I pm k =
     path_resolve I (staticDirectory (commonPath pm)) (pageName k @ mountExt pm)"

definition pageHtmlPath :: "imports_t \<Rightarrow> BaseFactory \<Rightarrow> ExtensionUIPage \<Rightarrow> string" where
  "pageHtmlPath I pm k =
     path_resolve I (dotPlasmoDirectory (commonPath pm)) (pageName k @ ''.html'')"

text \<open>
  The writes of one page generation as a function of the state it starts from, and the
  two files it reads.
\<close>

definition pagePaths :: "imports_t \<Rightarrow> BaseFactory \<Rightarrow> ExtensionUIPage \<Rightarrow> string list" where
  "pagePaths I pm k = [pageScriptPath I pm k, pageHtmlPath I pm k]"

definition pageWrites ::
  "imports_t \<Rightarrow> BaseFactory \<Rightarrow> world \<Rightarrow> ExtensionUIPage \<Rightarrow> string option \<times> string option
     \<Rightarrow> (string \<times> string) list" where
  "pageWrites I pm s k found =
     [(pageScriptPath I pm k,
       finalScaffold (the (templateOf I pm s (''index'' @ mountExt pm)))
         [(''__plasmo_import_module__'', indexImport I pm k (fst found))]),
      (pageHtmlPath I pm k,
       finalScaffold (the (htmlSource I pm s (htmlFileOf (snd found))))
         (htmlReplaceMap pm (''./static/'' @ pageName k @ mountExt pm)
            (htmlFileOf (snd found))))]"

definition pageInputs ::
  "imports_t \<Rightarrow> BaseFactory \<Rightarrow> string option \<times> string option \<Rightarrow> string list" where
  "pageInputs I pm found =
     [path_resolve I (staticScaffoldPath pm) (''index'' @ mountExt pm),
      htmlSourcePath I pm (htmlFileOf (snd found))]"

text \<open>
  The page kinds in the order of the array of \<^verbatim>\<open>init\<close>, the two directories
  of the static-asset copy, and two conditions on the state \<^verbatim>\<open>init\<close>
  starts from. \<open>initReady\<close>: no I/O error can occur (the template's common
  directory exists and its target is no file, the static directory is no file, no output
  path is a directory, the mount template and, for every page, the file its HTML is
  generated from can be read). \<open>initSeparated\<close>: no input (template file, HTML
  source, candidate path) is one of the paths \<^verbatim>\<open>init\<close> writes or creates,
  so a run leaves the inputs of the next run as they were.
\<close>

definition uiPages :: "ExtensionUIPage list" where
  "uiPages = [popup, options, newtab, devtools]"

definition commonSource :: "imports_t \<Rightarrow> BaseFactory \<Rightarrow> string" where
  "commonSource I pm = path_resolve I (staticTemplatePath (templatePath pm)) ''common''"

definition commonTarget :: "imports_t \<Rightarrow> BaseFactory \<Rightarrow> string" where
  "commonTarget I pm = path_resolve I (staticDirectory (commonPath pm)) ''common''"

definition initReady :: "imports_t \<Rightarrow> BaseFactory \<Rightarrow> world \<Rightarrow> bool" where
  "initReady I pm s =
     (commonSource I pm \<in> dirs s
      \<and> files s (commonTarget I pm) = None
      \<and> files s (staticDirectory (commonPath pm)) = None
      \<and> (\<forall>k \<in> set uiPages. \<forall>q \<in> set (pagePaths I pm k).
            q \<notin> dirs s \<and> q \<noteq> commonTarget I pm \<and> q \<noteq> staticDirectory (commonPath pm))
      \<and> templateOf I pm s (''index'' @ mountExt pm) \<noteq> None
      \<and> (\<forall>k \<in> set uiPages. htmlSource I pm s (htmlFileOf (snd (resolvePage pm k s))) \<noteq> None))"

definition initSeparated :: "imports_t \<Rightarrow> BaseFactory \<Rightarrow> world \<Rightarrow> bool" where
  "initSeparated I pm s =
     (\<forall>k \<in> set uiPages.
        \<forall>p \<in> set (pageInputs I pm (resolvePage pm k s)
                    @ indexList (projectPath pm) k @ htmlList (projectPath pm) k).
          p \<notin> set (concat (map (pagePaths I pm) uiPages))
          \<and> p \<noteq> staticDirectory (commonPath pm)
          \<and> p \<noteq> commonTarget I pm)"

text \<open>
  A small project for the worked examples: node's \<^verbatim>\<open>path\<close> functions on
  POSIX, written out for the shapes of arguments the examples use (an absolute directory
  and a relative name; a file two levels above the static directory), a manifest with the
  conventional candidate lists, and a file system that holds the three built-in templates,
  index modules for two of the pages and two user-authored HTML files.
\<close>

definition sampleImports :: imports_t where
  "sampleImports =
     \<lparr>path_resolve = (\<lambda>a b. a @ ''/'' @ b),
      path_relative = (\<lambda>a b. ''../..'' @ b),
      path_join = (\<lambda>a b. a @ ''/'' @ b),
      toPosix = (\<lambda>p. p),
      isSupportedUiExt = (\<lambda>e. e = ''.tsx'')\<rparr>"

definition sampleManifest :: BaseFactory where
  "sampleManifest =
     \<lparr>projectPath =
        \<lparr>popupIndexList = [''/popup.tsx'', ''/popup/index.tsx''],
         optionsIndexList = [''/options.tsx'', ''/options/index.tsx''],
         devtoolsIndexList = [''/devtools.tsx'', ''/devtools/index.tsx''],
         newtabIndexList = [''/newtab.tsx'', ''/newtab/index.tsx''],
         popupHtmlList = [''/popup.html'', ''/popup/index.html''],
         optionsHtmlList = [''/options.html'', ''/options/index.html''],
         devtoolsHtmlList = [''/devtools.html'', ''/devtools/index.html''],
         newtabHtmlList = [''/newtab.html'', ''/newtab/index.html'']\<rparr>,
      commonPath = \<lparr>staticDirectory = ''/.plasmo/static'', dotPlasmoDirectory = ''/.plasmo''\<rparr>,
      templatePath = \<lparr>staticTemplatePath = ''/t''\<rparr>,
      mountExt = ''.tsx'',
      manifestName = ''Demo'',
      staticScaffoldPath = ''/t/react''\<rparr>"

definition sampleWorld :: world where
  "sampleWorld =
     \<lparr>files =
        [''/t/react/index.tsx'' \<mapsto> ''import(__plasmo_import_module__)'',
         ''/t/react/index.html'' \<mapsto>
           ''<t>__plasmo_static_index_title__</t><s>__plasmo_static_script__</s>'',
         ''/t/react/content-script-ui-mount.tsx'' \<mapsto> ''mount(__plasmo_mount_content_script__)'',
         ''/popup/index.tsx'' \<mapsto> ''P'',
         ''/newtab.tsx'' \<mapsto> ''N'',
         ''/newtab/index.tsx'' \<mapsto> ''N2'',
         ''/popup.html'' \<mapsto> ''<t>__plasmo_static_index_title__</t><body>Hi</body>'',
         ''/options.html'' \<mapsto> ''<t>__plasmo_static_index_title__</t>''],
      dirs = {''/t/common'', ''/popup''},
      scaffoldCache = Map.empty,
      reads = [],
      written = [],
      copied = []\<rparr>"

subsection \<open>Facts about the substitution\<close>

lemma getSubstitution_literal:
  "CHR ''$'' \<notin> set v \<Longrightarrow> getSubstitution m b a v = v"
  by (induction m b a v rule: getSubstitution.induct) auto

lemma occurrences_drop_empty:
  "occurrences k s = [] \<Longrightarrow> occurrences k (drop n s) = []"
proof (induction s arbitrary: n)
  case Nil
  then show ?case by simp
next
  case (Cons c cs)
  then show ?case by (cases n) (auto split: if_splits)
qed

lemma replaceFrom_no_occurrence:
  "occurrences k s = [] \<Longrightarrow> replaceFrom k v b s = s"
  by (induction s arbitrary: b) (auto split: if_splits)

lemma replaceFrom_one_occurrence:
  assumes "k \<noteq> []" and "CHR ''$'' \<notin> set v" and "occurrences k s = [p]"
  shows "replaceFrom k v b s = take p s @ v @ drop (p + length k) s"
  using assms(3)
proof (induction s arbitrary: b p)
  case Nil
  with assms(1) show ?case by simp
next
  case (Cons c cs)
  show ?case
  proof (cases "take (length k) (c # cs) = k")
    case True
    with Cons.prems have p0: "p = 0" and rest: "occurrences k cs = []"
      by auto
    obtain n where n: "length k = Suc n"
      using assms(1) by (cases k) auto
    have "occurrences k (drop n cs) = []"
      using rest by (rule occurrences_drop_empty)
    then have "replaceFrom k v (b @ k) (drop n cs) = drop n cs"
      by (rule replaceFrom_no_occurrence)
    with True p0 n assms(1,2) show ?thesis
      by (simp add: getSubstitution_literal)
  next
    case False
    with Cons.prems obtain q where q: "p = Suc q" "occurrences k cs = [q]"
      by (auto simp: map_eq_Cons_conv)
    from Cons.IH[OF q(2)] False q(1) show ?thesis
      by simp
  qed
qed

lemma replaceAll_no_occurrence:
  "occurrences k s = [] \<Longrightarrow> replaceAll s k v = s"
proof -
  assume a: "occurrences k s = []"
  then have "k \<noteq> []"
    by (cases s) (auto split: if_splits)
  with a show ?thesis
    by (simp add: replaceAll_def replaceFrom_no_occurrence)
qed

lemma replaceAll_one_occurrence:
  "k \<noteq> [] \<Longrightarrow> CHR ''$'' \<notin> set v \<Longrightarrow> occurrences k s = [p] \<Longrightarrow>
   replaceAll s k v = take p s @ v @ drop (p + length k) s"
  by (simp add: replaceAll_def replaceFrom_one_occurrence)

lemma occurrences_take:
  "p \<in> set (occurrences k s) \<Longrightarrow> take (length k) (drop p s) = k"
proof (induction s arbitrary: p)
  case Nil
  then show ?case by (auto split: if_splits)
next
  case (Cons c cs)
  then show ?case by (cases p) (auto split: if_splits)
qed











lemma finalScaffold_pair:
  "finalScaffold t [(k, v), (k', v')] = replaceAll (replaceAll t k v) k' v'"
  by (simp add: finalScaffold_def)




subsection \<open>Effects of the file operations\<close>

lemma extends_refl: "extends I pm s [] s"
  by (simp add: extends_def)

lemma extends_trans:
  "extends I pm s ws s1 \<Longrightarrow> extends I pm s1 ws' s2 \<Longrightarrow> extends I pm s (ws @ ws') s2"
  unfolding extends_def by (intro conjI allI impI) (simp_all add: image_Un)

lemma writeFile_ok:
  "p \<notin> dirs s \<Longrightarrow>
   writeFile p c s = (Inr (), s\<lparr>files := (files s)(p \<mapsto> c), written := written s @ [(p, c)]\<rparr>)"
  by (simp add: writeFile_def)

lemma cachedGenerate_hit:
  "cached s f = Some t \<Longrightarrow>
   cachedGenerate I pm f out m s = writeFile out (finalScaffold t m) s"
  by (simp add: cachedGenerate_def bindIO_def generate_def)

lemma cachedGenerate_miss:
  "cached s f = None \<Longrightarrow> files s (path_resolve I (staticScaffoldPath pm) f) = Some t \<Longrightarrow>
   cachedGenerate I pm f out m s =
     writeFile out (finalScaffold t m)
       (s\<lparr>reads := reads s @ [path_resolve I (staticScaffoldPath pm) f],
          scaffoldCache := (scaffoldCache s)(f \<mapsto> t)\<rparr>)"
  by (simp add: cachedGenerate_def bindIO_def generate_def readFile_def)

lemma cachedGenerate_fail:
  "cached s f = None \<Longrightarrow> files s (path_resolve I (staticScaffoldPath pm) f) = None \<Longrightarrow>
   cachedGenerate I pm f out m s =
     (Inl (ReadError (path_resolve I (staticScaffoldPath pm) f)),
      s\<lparr>reads := reads s @ [path_resolve I (staticScaffoldPath pm) f]\<rparr>)"
  by (simp add: cachedGenerate_def bindIO_def generate_def readFile_def)

lemma cachedGenerate_extends:
  assumes t: "templateOf I pm s f = Some t" and out: "out \<notin> dirs s"
  shows "\<exists>s'. cachedGenerate I pm f out m s = (Inr (), s')
              \<and> extends I pm s [(out, finalScaffold t m)] s'"
proof (cases "cached s f")
  case None
  with t have fl: "files s (path_resolve I (staticScaffoldPath pm) f) = Some t"
    by (simp add: templateOf_def)
  show ?thesis
    unfolding cachedGenerate_miss[OF None fl]
    using out None fl
    by (auto simp: writeFile_def extends_def templateOf_def cached_def split: option.splits if_splits)
next
  case (Some u)
  with t have "u = t" by (simp add: templateOf_def)
  with Some out show ?thesis
    by (auto simp: cachedGenerate_hit writeFile_def extends_def templateOf_def cached_def
             split: option.splits if_splits)
qed

lemma copyGenerate_extends:
  assumes "files s p = Some src" and "out \<notin> dirs s"
  shows "\<exists>s'. copyGenerate p out m s = (Inr (), s')
              \<and> extends I pm s [(out, finalScaffold src m)] s'
              \<and> scaffoldCache s' = scaffoldCache s"
  using assms
  by (auto simp: copyGenerate_def bindIO_def readFile_def generate_def writeFile_def
                 extends_def templateOf_def cached_def split: option.splits if_splits)

subsection \<open>The mounts of a module\<close>

lemma templateOf_dirs [simp]:
  "templateOf I pm (s\<lparr>dirs := d\<rparr>) g = templateOf I pm s g"
  by (simp add: templateOf_def cached_def split: option.splits)

lemma ensureDir_ok:
  "files s p = None \<Longrightarrow> ensureDir p s = (Inr (), s\<lparr>dirs := insert p (dirs s)\<rparr>)"
  by (simp add: ensureDir_def)

lemma generateHtml_builtin:
  "truthyPath hf = None \<Longrightarrow>
   generateHtml I pm out S hf =
     cachedGenerate I pm ''index.html'' out
       [(''__plasmo_static_index_title__'', manifestName pm), (''__plasmo_static_script__'', S)]"
  by (simp add: generateHtml_def)

lemma generateHtml_user:
  "truthyPath hf = Some p \<Longrightarrow>
   generateHtml I pm out S hf =
     copyGenerate p out
       [(''__plasmo_static_index_title__'', manifestName pm), (''__plasmo_static_script__'', S),
        (''</body>'', bodyInjection S @ ''</body>'')]"
  by (simp add: generateHtml_def)











subsection \<open>The HTML generator\<close>

text \<open>
  Claim C10. \<^verbatim>\<open>generateHtml\<close> with \<^verbatim>\<open>htmlFile\<close> left out,
  \<^verbatim>\<open>false\<close> or the empty string is the generation from the cached
  built-in template \<^verbatim>\<open>index.html\<close> with the title and script
  replacements, for every output path and script path; with a non-empty string it is the
  copy of that file with the closing-body replacement added. \<^verbatim>\<open>createPageHtml\<close>
  without an HTML file is the same generation from the built-in template.
\<close>

theorem C10_falsy_htmlFile:
  "generateHtml I pm out S HtmlOmitted =
     cachedGenerate I pm ''index.html'' out
       [(''__plasmo_static_index_title__'', manifestName pm), (''__plasmo_static_script__'', S)]
   \<and> generateHtml I pm out S HtmlFalse =
     cachedGenerate I pm ''index.html'' out
       [(''__plasmo_static_index_title__'', manifestName pm), (''__plasmo_static_script__'', S)]
   \<and> generateHtml I pm out S (HtmlFile []) =
     cachedGenerate I pm ''index.html'' out
       [(''__plasmo_static_index_title__'', manifestName pm), (''__plasmo_static_script__'', S)]
   \<and> generateHtml I pm out S (HtmlFile (c # cs)) =
     copyGenerate (c # cs) out
       [(''__plasmo_static_index_title__'', manifestName pm), (''__plasmo_static_script__'', S),
        (''</body>'', bodyInjection S @ ''</body>'')]
   \<and> createPageHtml I pm uiPageName HtmlOmitted =
     cachedGenerate I pm ''index.html''
       (path_resolve I (dotPlasmoDirectory (commonPath pm)) (pageName uiPageName @ ''.html''))
       [(''__plasmo_static_index_title__'', manifestName pm),
        (''__plasmo_static_script__'', ''./static/'' @ pageName uiPageName @ mountExt pm)]"
  by (simp add: generateHtml_def createPageHtml_def)

lemma generateHtml_user_run:
  assumes "files s p = Some src" and "p \<noteq> []" and "out \<notin> dirs s"
  shows "generateHtml I pm out S (HtmlFile p) s =
           (Inr (),
            s\<lparr>reads := reads s @ [p],
              files := (files s)(out \<mapsto>
                replaceAll
                  (finalScaffold src
                     [(''__plasmo_static_index_title__'', manifestName pm),
                      (''__plasmo_static_script__'', S)])
                  ''</body>'' (bodyInjection S @ ''</body>'')),
              written := written s @
                [(out, replaceAll
                  (finalScaffold src
                     [(''__plasmo_static_index_title__'', manifestName pm),
                      (''__plasmo_static_script__'', S)])
                  ''</body>'' (bodyInjection S @ ''</body>''))]\<rparr>)"
  using assms
  by (simp add: generateHtml_def copyGenerate_def bindIO_def readFile_def generate_def
                writeFile_def finalScaffold_def)

lemma bodyInjection_no_dollar:
  "CHR ''$'' \<notin> set S \<Longrightarrow> CHR ''$'' \<notin> set (bodyInjection S @ ''</body>'')"
  by (simp add: bodyInjection_def)

lemma replaceAll_insert_before:
  assumes "k \<noteq> []" and "CHR ''$'' \<notin> set (v @ k)" and "occurrences k t = [n]"
  shows "replaceAll t k (v @ k) = take n t @ v @ drop n t"
proof -
  have "n \<in> set (occurrences k t)"
    using assms(3) by simp
  then have "take (length k) (drop n t) = k"
    by (rule occurrences_take)
  with append_take_drop_id[of "length k" "drop n t"]
  have "drop n t = k @ drop (n + length k) t"
    by (simp add: add.commute)
  with replaceAll_one_occurrence[OF assms] show ?thesis
    by simp
qed

lemma generateHtml_injects:
  assumes "files s p = Some src" and "p \<noteq> []" and "out \<notin> dirs s"
    and t: "t = finalScaffold src
                 [(''__plasmo_static_index_title__'', manifestName pm),
                  (''__plasmo_static_script__'', S)]"
    and occ: "occurrences ''</body>'' t = [n]"
    and dollar: "CHR ''$'' \<notin> set S"
  shows "fst (generateHtml I pm out S (HtmlFile p) s) = Inr ()
       \<and> written (snd (generateHtml I pm out S (HtmlFile p) s)) =
           written s @ [(out, take n t @ bodyInjection S @ drop n t)]
       \<and> take (length ''</body>'') (drop n t) = ''</body>''"
proof -
  have "n \<in> set (occurrences ''</body>'' t)"
    using occ by simp
  then have mark: "take (length ''</body>'') (drop n t) = ''</body>''"
    by (rule occurrences_take)
  have "replaceAll t ''</body>'' (bodyInjection S @ ''</body>'')
          = take n t @ bodyInjection S @ drop n t"
    by (rule replaceAll_insert_before[OF _ bodyInjection_no_dollar[OF dollar] occ]) simp
  then have "fst (generateHtml I pm out S (HtmlFile p) s) = Inr ()
       \<and> written (snd (generateHtml I pm out S (HtmlFile p) s)) =
           written s @ [(out, take n t @ bodyInjection S @ drop n t)]"
    by (simp add: generateHtml_user_run[OF assms(1,2,3)] t)
  with mark show ?thesis
    by blast
qed

lemma generateHtml_skips:
  assumes "files s p = Some src" and "p \<noteq> []" and "out \<notin> dirs s"
    and t: "t = finalScaffold src
                 [(''__plasmo_static_index_title__'', manifestName pm),
                  (''__plasmo_static_script__'', S)]"
    and occ: "occurrences ''</body>'' t = []"
  shows "fst (generateHtml I pm out S (HtmlFile p) s) = Inr ()
       \<and> written (snd (generateHtml I pm out S (HtmlFile p) s)) = written s @ [(out, t)]
       \<and> files (snd (generateHtml I pm out S (HtmlFile p) s)) = (files s)(out \<mapsto> t)
       \<and> dirs (snd (generateHtml I pm out S (HtmlFile p) s)) = dirs s
       \<and> scaffoldCache (snd (generateHtml I pm out S (HtmlFile p) s)) = scaffoldCache s"
  using replaceAll_no_occurrence[OF occ]
  by (simp add: generateHtml_user_run[OF assms(1,2,3)] t)

text \<open>
  Claim C5, amended. Let \<open>t\<close> be the user's HTML after the title token and the
  script token have been replaced. If the closing-body marker occurs in \<open>t\<close>
  exactly once, at position \<open>n\<close>, and the script mount path holds no dollar sign,
  the generated HTML is \<open>t\<close> with the root element and the module script tag for
  the script mount path inserted at \<open>n\<close>, immediately before the marker, and
  every other character of \<open>t\<close> is kept.
\<close>

theorem C5_html_injection:
  assumes "files s p = Some src" and "p \<noteq> []" and "out \<notin> dirs s"
    and "t = finalScaffold src
               [(''__plasmo_static_index_title__'', manifestName pm),
                (''__plasmo_static_script__'', S)]"
    and "occurrences ''</body>'' t = [n]"
    and "CHR ''$'' \<notin> set S"
  shows "fst (generateHtml I pm out S (HtmlFile p) s) = Inr ()
       \<and> written (snd (generateHtml I pm out S (HtmlFile p) s)) =
           written s @ [(out, take n t @ bodyInjection S @ drop n t)]
       \<and> take (length ''</body>'') (drop n t) = ''</body>''"
  using assms by (rule generateHtml_injects)

text \<open>The theorem at the user's \<^verbatim>\<open>/popup.html\<close> of the example project.\<close>

theorem C5_html_injection_witness:
  \<open>fst (generateHtml sampleImports sampleManifest ''/.plasmo/popup.html'' ''./static/popup.tsx''
          (HtmlFile ''/popup.html'') sampleWorld) = Inr ()
   \<and> written (snd (generateHtml sampleImports sampleManifest ''/.plasmo/popup.html''
          ''./static/popup.tsx'' (HtmlFile ''/popup.html'') sampleWorld)) =
       [(''/.plasmo/popup.html'',
         ''<t>Demo</t><body>Hi<div id="root"></div><script src="./static/popup.tsx" type="module"></script></body>'')]\<close>
  using C5_html_injection[where I = sampleImports and pm = sampleManifest and s = sampleWorld
          and p = "''/popup.html''" and out = "''/.plasmo/popup.html''"
          and S = "''./static/popup.tsx''"
          and src = "''<t>__plasmo_static_index_title__</t><body>Hi</body>''"
          and t = "''<t>Demo</t><body>Hi</body>''"
          and n = "length ''<t>Demo</t><body>Hi''"]
  by (simp add: sampleImports_def sampleManifest_def sampleWorld_def finalScaffold_def
                replaceAll_def bodyInjection_def)

text \<open>
  The claim as stated fails: this source has exactly one closing-body marker, and the
  generated HTML is not the source with the insertion before the marker, since the title
  token of the source is replaced as well.
\<close>

theorem C5_html_injection_counterexample:
  "files sampleWorld ''/popup.html'' = Some ''<t>__plasmo_static_index_title__</t><body>Hi</body>''
   \<and> occurrences ''</body>'' ''<t>__plasmo_static_index_title__</t><body>Hi</body>''
       = [length ''<t>__plasmo_static_index_title__</t><body>Hi'']
   \<and> written (snd (generateHtml sampleImports sampleManifest ''/.plasmo/popup.html''
          ''./static/popup.tsx'' (HtmlFile ''/popup.html'') sampleWorld)) \<noteq>
       [(''/.plasmo/popup.html'',
         ''<t>__plasmo_static_index_title__</t><body>Hi'' @ bodyInjection ''./static/popup.tsx''
           @ ''</body>'')]"
  by (simp add: sampleImports_def sampleManifest_def sampleWorld_def finalScaffold_def
                replaceAll_def bodyInjection_def generateHtml_def copyGenerate_def bindIO_def
                readFile_def generate_def writeFile_def)

text \<open>
  Claim C6, amended. Let \<open>t\<close> be the user's HTML after the title token and the
  script token have been replaced. If \<open>t\<close> holds no closing-body marker (and the
  file can be read and the output path written), the generation succeeds, the file
  written is \<open>t\<close>, nothing is injected, and directories and cache are as before.
\<close>

theorem C6_no_marker:
  assumes "files s p = Some src" and "p \<noteq> []" and "out \<notin> dirs s"
    and "t = finalScaffold src
               [(''__plasmo_static_index_title__'', manifestName pm),
                (''__plasmo_static_script__'', S)]"
    and "occurrences ''</body>'' t = []"
  shows "fst (generateHtml I pm out S (HtmlFile p) s) = Inr ()
       \<and> written (snd (generateHtml I pm out S (HtmlFile p) s)) = written s @ [(out, t)]
       \<and> files (snd (generateHtml I pm out S (HtmlFile p) s)) = (files s)(out \<mapsto> t)
       \<and> dirs (snd (generateHtml I pm out S (HtmlFile p) s)) = dirs s
       \<and> scaffoldCache (snd (generateHtml I pm out S (HtmlFile p) s)) = scaffoldCache s"
  using assms by (rule generateHtml_skips)

text \<open>The theorem at the user's \<^verbatim>\<open>/options.html\<close> of the example project.\<close>

theorem C6_no_marker_witness:
  "fst (generateHtml sampleImports sampleManifest ''/.plasmo/options.html''
          ''./static/options.tsx'' (HtmlFile ''/options.html'') sampleWorld) = Inr ()
   \<and> written (snd (generateHtml sampleImports sampleManifest ''/.plasmo/options.html''
          ''./static/options.tsx'' (HtmlFile ''/options.html'') sampleWorld)) =
       [(''/.plasmo/options.html'', ''<t>Demo</t>'')]"
  using C6_no_marker[where I = sampleImports and pm = sampleManifest and s = sampleWorld
          and p = "''/options.html''" and out = "''/.plasmo/options.html''"
          and S = "''./static/options.tsx''"
          and src = "''<t>__plasmo_static_index_title__</t>''"
          and t = "''<t>Demo</t>''"]
  by (simp add: sampleImports_def sampleManifest_def sampleWorld_def finalScaffold_def
                replaceAll_def)

text \<open>
  The claim as stated fails: this source holds no closing-body marker, the project is
  named \<^verbatim>\<open>body\<close>, and the title replacement completes a marker that the
  third replacement then injects the mount point before. The output is not the source
  with only the title and script replacements.
\<close>

theorem C6_no_marker_counterexample:
  \<open>occurrences ''</body>'' ''<body>Hi</__plasmo_static_index_title__>'' = []
   \<and> finalScaffold ''<body>Hi</__plasmo_static_index_title__>''
        [(''__plasmo_static_index_title__'', ''body''),
         (''__plasmo_static_script__'', ''./static/popup.tsx'')] = ''<body>Hi</body>''
   \<and> written (snd (generateHtml sampleImports (sampleManifest\<lparr>manifestName := ''body''\<rparr>)
        ''/.plasmo/popup.html'' ''./static/popup.tsx'' (HtmlFile ''/x.html'')
        (sampleWorld\<lparr>files := [''/x.html'' \<mapsto> ''<body>Hi</__plasmo_static_index_title__>'']\<rparr>)))
     = [(''/.plasmo/popup.html'',
         ''<body>Hi<div id="root"></div><script src="./static/popup.tsx" type="module"></script></body>'')]
   \<and> written (snd (generateHtml sampleImports (sampleManifest\<lparr>manifestName := ''body''\<rparr>)
        ''/.plasmo/popup.html'' ''./static/popup.tsx'' (HtmlFile ''/x.html'')
        (sampleWorld\<lparr>files := [''/x.html'' \<mapsto> ''<body>Hi</__plasmo_static_index_title__>'']\<rparr>)))
     \<noteq> [(''/.plasmo/popup.html'', ''<body>Hi</body>'')]\<close>
  by (simp add: sampleImports_def sampleManifest_def sampleWorld_def finalScaffold_def
                replaceAll_def bodyInjection_def generateHtml_def copyGenerate_def bindIO_def
                readFile_def generate_def writeFile_def)

subsection \<open>The template cache\<close>

text \<open>
  What holds of the cache: a truthy entry is used without a read, and a first load of a
  non-empty template makes every later load of that name read nothing.
\<close>

lemma cachedGenerate_cached_no_read:
  "cached s f = Some t \<Longrightarrow>
   reads (snd (cachedGenerate I pm f out m s)) = reads s
   \<and> scaffoldCache (snd (cachedGenerate I pm f out m s)) = scaffoldCache s"
  by (simp add: cachedGenerate_hit writeFile_def)

lemma cachedGenerate_first_load:
  assumes "cached s f = None"
    and "files s (path_resolve I (staticScaffoldPath pm) f) = Some t"
    and "out \<notin> dirs s"
  shows "fst (cachedGenerate I pm f out m s) = Inr ()
       \<and> reads (snd (cachedGenerate I pm f out m s)) =
           reads s @ [path_resolve I (staticScaffoldPath pm) f]
       \<and> scaffoldCache (snd (cachedGenerate I pm f out m s)) f = Some t"
  using assms by (simp add: cachedGenerate_miss writeFile_def)

lemma cachedGenerate_second_load:
  assumes "cached s f = None"
    and "files s (path_resolve I (staticScaffoldPath pm) f) = Some t"
    and "t \<noteq> []"
    and "out \<notin> dirs s"
  shows "reads (snd (cachedGenerate I pm f out' m'
                      (snd (cachedGenerate I pm f out m s)))) =
           reads s @ [path_resolve I (staticScaffoldPath pm) f]"
proof -
  let ?s1 = "snd (cachedGenerate I pm f out m s)"
  have "cached ?s1 f = Some t"
    using assms by (simp add: cachedGenerate_miss writeFile_def cached_def)
  from cachedGenerate_cached_no_read[OF this] cachedGenerate_first_load[OF assms(1,2,4)]
  show ?thesis by simp
qed

text \<open>
  Claim C2 at a template file that is empty: the first load succeeds and stores the
  (empty) text in the cache, and the second load of the same name reads the file again,
  since the test \<^verbatim>\<open>!this.#scaffoldCache[fileName]\<close> takes the stored empty
  string for a missing entry.
\<close>

theorem C2_empty_template_read_again:
  "fst (cachedGenerate sampleImports sampleManifest ''index.html'' ''/.plasmo/a.html'' []
          (sampleWorld\<lparr>files := [''/t/react/index.html'' \<mapsto> '''']\<rparr>)) = Inr ()
   \<and> scaffoldCache (snd (cachedGenerate sampleImports sampleManifest ''index.html''
          ''/.plasmo/a.html'' []
          (sampleWorld\<lparr>files := [''/t/react/index.html'' \<mapsto> '''']\<rparr>))) ''index.html''
       = Some ''''
   \<and> reads (snd (cachedGenerate sampleImports sampleManifest ''index.html''
          ''/.plasmo/a.html'' []
          (sampleWorld\<lparr>files := [''/t/react/index.html'' \<mapsto> '''']\<rparr>)))
       = [''/t/react/index.html'']
   \<and> reads (snd (cachedGenerate sampleImports sampleManifest ''index.html''
          ''/.plasmo/b.html'' []
          (snd (cachedGenerate sampleImports sampleManifest ''index.html''
             ''/.plasmo/a.html'' []
             (sampleWorld\<lparr>files := [''/t/react/index.html'' \<mapsto> '''']\<rparr>)))))
       = [''/t/react/index.html'', ''/t/react/index.html'']"
  by (simp add: sampleImports_def sampleManifest_def sampleWorld_def cachedGenerate_def
                bindIO_def readFile_def generate_def writeFile_def cached_def finalScaffold_def)

subsection \<open>The canonical pages\<close>

lemma foldl_upd_other:
  "p \<notin> fst ` set ws \<Longrightarrow> foldl (\<lambda>f (q, c). f(q \<mapsto> c)) m ws p = m p"
  by (induction ws arbitrary: m) auto

lemma foldl_upd_dom:
  "m p \<noteq> None \<Longrightarrow> foldl (\<lambda>f (q, c). f(q \<mapsto> c)) m ws p \<noteq> None"
  by (induction ws arbitrary: m) auto

lemma foldl_upd_map_add:
  "foldl (\<lambda>f (q, c). f(q \<mapsto> c)) m ws = m ++ map_of (rev ws)"
  by (induction ws arbitrary: m) (auto simp: map_add_def fun_eq_iff split: option.splits)

lemma foldl_upd_twice:
  "foldl (\<lambda>f (q, c). f(q \<mapsto> c)) (foldl (\<lambda>f (q, c). f(q \<mapsto> c)) m ws) ws
     = foldl (\<lambda>f (q, c). f(q \<mapsto> c)) m ws"
  by (simp add: foldl_upd_map_add map_add_def fun_eq_iff split: option.splits)

lemma extends_files_other:
  "extends I pm s ws s' \<Longrightarrow> p \<notin> fst ` set ws \<Longrightarrow> files s' p = files s p"
  by (simp add: extends_def foldl_upd_other)

lemma extends_files_dom:
  "extends I pm s ws s' \<Longrightarrow> files s p \<noteq> None \<Longrightarrow> files s' p \<noteq> None"
  by (simp add: extends_def foldl_upd_dom)

lemma extends_htmlSource_dom:
  "extends I pm s ws s' \<Longrightarrow> htmlSource I pm s hf \<noteq> None \<Longrightarrow> htmlSource I pm s' hf \<noteq> None"
  by (cases "truthyPath hf") (auto simp: htmlSource_def extends_def foldl_upd_dom)

lemma extends_htmlSource_other:
  "extends I pm s ws s' \<Longrightarrow> htmlSourcePath I pm hf \<notin> fst ` set ws \<Longrightarrow>
   htmlSource I pm s' hf = htmlSource I pm s hf"
  by (cases "truthyPath hf")
     (auto simp: htmlSource_def htmlSourcePath_def extends_def foldl_upd_other)

lemma htmlSource_dirs [simp]:
  "htmlSource I pm (s\<lparr>dirs := d\<rparr>) hf = htmlSource I pm s hf"
  by (simp add: htmlSource_def split: option.splits)

lemma generateHtml_extends:
  assumes src: "htmlSource I pm s hf = Some src" and out: "out \<notin> dirs s"
  shows "\<exists>s'. generateHtml I pm out S hf s = (Inr (), s')
              \<and> extends I pm s [(out, finalScaffold src (htmlReplaceMap pm S hf))] s'"
proof (cases "truthyPath hf")
  case None
  with src have "templateOf I pm s ''index.html'' = Some src"
    by (simp add: htmlSource_def)
  from cachedGenerate_extends[OF this out] None show ?thesis
    by (simp add: generateHtml_builtin htmlReplaceMap_def)
next
  case (Some p)
  with src have "files s p = Some src"
    by (simp add: htmlSource_def)
  from copyGenerate_extends[OF this out, of _ I pm] Some show ?thesis
    by (auto simp: generateHtml_user htmlReplaceMap_def)
qed


lemma generatePage_ok:
  assumes D: "D = staticDirectory (commonPath pm)"
    and free: "files s D = None"
    and Ow: "pageScriptPath I pm k \<notin> insert D (dirs s)"
    and Hw: "pageHtmlPath I pm k \<notin> insert D (dirs s)"
    and t: "templateOf I pm s (''index'' @ mountExt pm) = Some t"
    and src: "htmlSource I pm s (htmlFileOf html) \<noteq> None"
  shows "\<exists>s' h. generatePage I pm k (idx, html) s = (Inr (idx \<noteq> None), s')
           \<and> extends I pm (s\<lparr>dirs := insert D (dirs s)\<rparr>)
                [(pageScriptPath I pm k,
                  finalScaffold t [(''__plasmo_import_module__'', indexImport I pm k idx)]),
                 (pageHtmlPath I pm k, h)] s'
           \<and> (htmlSourcePath I pm (htmlFileOf html) \<noteq> pageScriptPath I pm k \<longrightarrow>
                htmlSource I pm s (htmlFileOf html) =
                  Some (the (htmlSource I pm s (htmlFileOf html)))
                \<and> h = finalScaffold (the (htmlSource I pm s (htmlFileOf html)))
                      (htmlReplaceMap pm (''./static/'' @ pageName k @ mountExt pm)
                         (htmlFileOf html)))"
proof -
  let ?s0 = "s\<lparr>dirs := insert D (dirs s)\<rparr>"
  let ?O = "pageScriptPath I pm k"
  let ?H = "pageHtmlPath I pm k"
  let ?hf = "htmlFileOf html"
  let ?S = "''./static/'' @ pageName k @ mountExt pm"
  let ?m1 = "[(''__plasmo_import_module__'', indexImport I pm k idx)]"
  have t0: "templateOf I pm ?s0 (''index'' @ mountExt pm) = Some t" using t by simp
  have "?O \<notin> dirs ?s0" using Ow by simp
  from cachedGenerate_extends[OF t0 this, of ?m1]
  obtain s1 where s1: "cachedGenerate I pm (''index'' @ mountExt pm) ?O ?m1 ?s0 = (Inr (), s1)"
    and e1: "extends I pm ?s0 [(?O, finalScaffold t ?m1)] s1"
    by blast
  have "htmlSource I pm ?s0 ?hf \<noteq> None" using src by simp
  from extends_htmlSource_dom[OF e1 this]
  obtain src1 where src1: "htmlSource I pm s1 ?hf = Some src1" by blast
  from e1 Hw have "?H \<notin> dirs s1" by (simp add: extends_def)
  from generateHtml_extends[OF src1 this, of ?S]
  obtain s2 where s2: "generateHtml I pm ?H ?S ?hf s1 = (Inr (), s2)"
    and e2: "extends I pm s1 [(?H, finalScaffold src1 (htmlReplaceMap pm ?S ?hf))] s2"
    by blast
  have run: "generatePage I pm k (idx, html) s = (Inr (idx \<noteq> None), s2)"
    using free s1 s2
    by (simp add: generatePage_def Let_def bindIO_def ensureDir_ok returnIO_def
                  createPageHtml_def D pageScriptPath_def pageHtmlPath_def htmlFileOf_def)
  have ext: "extends I pm ?s0
               ([(?O, finalScaffold t ?m1)] @ [(?H, finalScaffold src1 (htmlReplaceMap pm ?S ?hf))]) s2"
    using e1 e2 by (rule extends_trans)
  have "htmlSourcePath I pm ?hf \<noteq> ?O \<longrightarrow>
          htmlSource I pm s ?hf = Some src1"
  proof
    assume "htmlSourcePath I pm ?hf \<noteq> ?O"
    then have "htmlSource I pm s1 ?hf = htmlSource I pm ?s0 ?hf"
      using extends_htmlSource_other[OF e1] by simp
    with src1 show "htmlSource I pm s ?hf = Some src1" by simp
  qed
  with run ext show ?thesis by auto
qed

lemma templateOf_dirs_eq [simp]:
  "templateOf I pm (s\<lparr>dirs := d\<rparr>) = templateOf I pm s"
  by (rule ext) simp

lemma extends_dirs:
  "extends I pm s ws s' \<Longrightarrow> extends I pm (s\<lparr>dirs := X\<rparr>) ws (s'\<lparr>dirs := X\<rparr>)"
  by (simp add: extends_def)

lemma pages_ok:
  assumes D: "D = staticDirectory (commonPath pm)"
    and free: "files b D = None"
    and tmpl: "templateOf I pm b (''index'' @ mountExt pm) \<noteq> None"
  shows "extends I pm (b\<lparr>dirs := dirs st\<rparr>) ws st \<Longrightarrow>
         dirs st \<subseteq> insert D (dirs b) \<Longrightarrow>
         D \<notin> fst ` set ws \<Longrightarrow>
         (\<forall>k \<in> set ks. \<forall>q \<in> set (pagePaths I pm k). q \<notin> insert D (dirs b)) \<Longrightarrow>
         (\<forall>k \<in> set ks. htmlSource I pm b (htmlFileOf (snd (found k))) \<noteq> None) \<Longrightarrow>
         \<exists>st' ws'.
           promiseAll (map (\<lambda>k. generatePage I pm k (found k)) ks) st
             = (Inr (map (\<lambda>k. fst (found k) \<noteq> None) ks), st')
           \<and> extends I pm (b\<lparr>dirs := dirs st'\<rparr>) (ws @ ws') st'
           \<and> dirs st' \<subseteq> insert D (dirs b)
           \<and> dirs st \<subseteq> dirs st'
           \<and> map fst ws' = concat (map (pagePaths I pm) ks)
           \<and> ((\<forall>k \<in> set ks. \<forall>p \<in> set (pageInputs I pm (found k)).
                   p \<notin> fst ` set ws \<and> p \<notin> set (concat (map (pagePaths I pm) ks)))
                \<longrightarrow> ws' = concat (map (\<lambda>k. pageWrites I pm b k (found k)) ks))"
proof (induction ks arbitrary: st ws)
  case Nil
  then show ?case by simp
next
  case (Cons k ks)
  let ?O = "pageScriptPath I pm k"
  let ?H = "pageHtmlPath I pm k"
  let ?hf = "htmlFileOf (snd (found k))"
  let ?S = "''./static/'' @ pageName k @ mountExt pm"
  let ?Tidx = "path_resolve I (staticScaffoldPath pm) (''index'' @ mountExt pm)"
  note e = Cons.prems(1)
  have Ok: "?O \<notin> insert D (dirs b)" and Hk: "?H \<notin> insert D (dirs b)"
    using Cons.prems(4) by (simp_all add: pagePaths_def)
  have free_st: "files st D = None"
    using extends_files_other[OF e Cons.prems(3)] free by simp
  have Ow: "?O \<notin> insert D (dirs st)" and Hw: "?H \<notin> insert D (dirs st)"
    using Ok Hk Cons.prems(2) by auto
  from e tmpl have "templateOf I pm st (''index'' @ mountExt pm) \<noteq> None"
    by (simp add: extends_def)
  then obtain t where t: "templateOf I pm st (''index'' @ mountExt pm) = Some t"
    by blast
  have "htmlSource I pm (b\<lparr>dirs := dirs st\<rparr>) ?hf \<noteq> None"
    using Cons.prems(5) by simp
  from extends_htmlSource_dom[OF e this]
  have src: "htmlSource I pm st ?hf \<noteq> None" .
  from generatePage_ok[OF D free_st Ow Hw t src, of "fst (found k)"]
  obtain st1 h where run1: "generatePage I pm k (found k) st = (Inr (fst (found k) \<noteq> None), st1)"
    and e1: "extends I pm (st\<lparr>dirs := insert D (dirs st)\<rparr>)
               [(?O, finalScaffold t [(''__plasmo_import_module__'',
                                        indexImport I pm k (fst (found k)))]),
                (?H, h)] st1"
    and content: "htmlSourcePath I pm ?hf \<noteq> ?O \<longrightarrow>
                    h = finalScaffold (the (htmlSource I pm st ?hf)) (htmlReplaceMap pm ?S ?hf)"
    by auto
  let ?w1 = "[(?O, finalScaffold t [(''__plasmo_import_module__'',
                                      indexImport I pm k (fst (found k)))]),
              (?H, h)]"
  have d1: "dirs st1 = insert D (dirs st)"
    using e1 by (simp add: extends_def)
  from extends_dirs[OF e, of "insert D (dirs st)"]
  have "extends I pm (b\<lparr>dirs := insert D (dirs st)\<rparr>) ws (st\<lparr>dirs := insert D (dirs st)\<rparr>)"
    by simp
  from extends_trans[OF this e1] d1
  have e': "extends I pm (b\<lparr>dirs := dirs st1\<rparr>) (ws @ ?w1) st1"
    by simp
  have sub1: "dirs st1 \<subseteq> insert D (dirs b)"
    using d1 Cons.prems(2) by auto
  have Dn1: "D \<notin> fst ` set (ws @ ?w1)"
    using Cons.prems(3) Ok Hk by auto
  have outs': "\<forall>k \<in> set ks. \<forall>q \<in> set (pagePaths I pm k). q \<notin> insert D (dirs b)"
    using Cons.prems(4) by simp
  have srcs': "\<forall>k \<in> set ks. htmlSource I pm b (htmlFileOf (snd (found k))) \<noteq> None"
    using Cons.prems(5) by simp
  from Cons.IH[OF e' sub1 Dn1 outs' srcs']
  obtain st' ws' where run': "promiseAll (map (\<lambda>k. generatePage I pm k (found k)) ks) st1
             = (Inr (map (\<lambda>k. fst (found k) \<noteq> None) ks), st')"
    and e'': "extends I pm (b\<lparr>dirs := dirs st'\<rparr>) ((ws @ ?w1) @ ws') st'"
    and sub': "dirs st' \<subseteq> insert D (dirs b)"
    and low': "dirs st1 \<subseteq> dirs st'"
    and paths': "map fst ws' = concat (map (pagePaths I pm) ks)"
    and content': "(\<forall>k \<in> set ks. \<forall>p \<in> set (pageInputs I pm (found k)).
                   p \<notin> fst ` set (ws @ ?w1) \<and> p \<notin> set (concat (map (pagePaths I pm) ks)))
                \<longrightarrow> ws' = concat (map (\<lambda>k. pageWrites I pm b k (found k)) ks)"
    by blast
  have run: "promiseAll (map (\<lambda>k. generatePage I pm k (found k)) (k # ks)) st
             = (Inr (map (\<lambda>k. fst (found k) \<noteq> None) (k # ks)), st')"
    using run1 run' by simp
  have paths: "map fst (?w1 @ ws') = concat (map (pagePaths I pm) (k # ks))"
    using paths' by (simp add: pagePaths_def)
  have "ws' = concat (map (\<lambda>k. pageWrites I pm b k (found k)) ks)
        \<and> ?w1 = pageWrites I pm b k (found k)"
    if sep: "\<forall>j \<in> set (k # ks). \<forall>p \<in> set (pageInputs I pm (found j)).
               p \<notin> fst ` set ws \<and> p \<notin> set (concat (map (pagePaths I pm) (k # ks)))"
  proof
    from sep have "\<forall>j \<in> set ks. \<forall>p \<in> set (pageInputs I pm (found j)).
                   p \<notin> fst ` set (ws @ ?w1) \<and> p \<notin> set (concat (map (pagePaths I pm) ks))"
      by (auto simp: pagePaths_def)
    with content' show "ws' = concat (map (\<lambda>k. pageWrites I pm b k (found k)) ks)"
      by blast
  next
    from sep have T: "?Tidx \<notin> fst ` set ws"
      and P: "htmlSourcePath I pm ?hf \<notin> fst ` set ws"
      and PO: "htmlSourcePath I pm ?hf \<noteq> ?O"
      by (auto simp: pageInputs_def pagePaths_def)
    from e T have "templateOf I pm st (''index'' @ mountExt pm)
                     = templateOf I pm b (''index'' @ mountExt pm)"
      by (simp add: extends_def)
    with t have t': "the (templateOf I pm b (''index'' @ mountExt pm)) = t"
      by (metis option.sel)
    from extends_htmlSource_other[OF e P]
    have "htmlSource I pm st ?hf = htmlSource I pm b ?hf"
      by simp
    with content PO have "h = finalScaffold (the (htmlSource I pm b ?hf)) (htmlReplaceMap pm ?S ?hf)"
      by simp
    with t' show "?w1 = pageWrites I pm b k (found k)"
      by (simp add: pageWrites_def)
  qed
  moreover have "dirs st \<subseteq> dirs st'"
    using low' d1 by auto
  ultimately show ?case using run e'' sub' paths
    by (intro exI[of _ st'] exI[of _ "?w1 @ ws'"]) (simp del: map_append)
qed

lemma templateOf_copied [simp]:
  "templateOf I pm (s\<lparr>copied := c\<rparr>) = templateOf I pm s"
  by (rule ext) (simp add: templateOf_def cached_def split: option.splits)

lemma htmlSource_copied [simp]:
  "htmlSource I pm (s\<lparr>copied := c\<rparr>) hf = htmlSource I pm s hf"
  by (simp add: htmlSource_def split: option.splits)

lemma pageWrites_base [simp]:
  "pageWrites I pm (s\<lparr>dirs := d, copied := c\<rparr>) k f = pageWrites I pm s k f"
  by (simp add: pageWrites_def)

lemma copyStaticCommon_ok:
  "commonSource I pm \<in> dirs s \<Longrightarrow> files s (commonTarget I pm) = None \<Longrightarrow>
   copyStaticCommon I pm s =
     (Inr (), s\<lparr>dirs := insert (commonTarget I pm) (dirs s),
               copied := copied s @ [(commonSource I pm, commonTarget I pm)]\<rparr>)"
  by (simp add: copyStaticCommon_def copy_def commonSource_def commonTarget_def)

lemma init_ok:
  assumes ready: "initReady I pm s"
  shows "\<exists>s' ws.
           init I pm s = (Inr (map (\<lambda>k. fst (resolvePage pm k s) \<noteq> None) uiPages), s')
           \<and> extends I pm
                (s\<lparr>dirs := dirs s', copied := copied s @ [(commonSource I pm, commonTarget I pm)]\<rparr>)
                ws s'
           \<and> dirs s \<subseteq> dirs s'
           \<and> dirs s' \<subseteq> insert (staticDirectory (commonPath pm)) (insert (commonTarget I pm) (dirs s))
           \<and> map fst ws = concat (map (pagePaths I pm) uiPages)
           \<and> ((\<forall>k \<in> set uiPages. \<forall>p \<in> set (pageInputs I pm (resolvePage pm k s)).
                   p \<notin> set (concat (map (pagePaths I pm) uiPages)))
                \<longrightarrow> ws = concat (map (\<lambda>k. pageWrites I pm s k (resolvePage pm k s)) uiPages))"
proof -
  let ?D = "staticDirectory (commonPath pm)"
  let ?b = "s\<lparr>dirs := insert (commonTarget I pm) (dirs s),
               copied := copied s @ [(commonSource I pm, commonTarget I pm)]\<rparr>"
  let ?found = "\<lambda>k. resolvePage pm k s"
  from ready have cp: "copyStaticCommon I pm s = (Inr (), ?b)"
    by (simp add: initReady_def copyStaticCommon_ok)
  have free: "files ?b ?D = None"
    using ready by (simp add: initReady_def)
  have tmpl: "templateOf I pm ?b (''index'' @ mountExt pm) \<noteq> None"
    using ready by (simp add: initReady_def)
  have e0: "extends I pm (?b\<lparr>dirs := dirs ?b\<rparr>) [] ?b"
    by (simp add: extends_def)
  have sub0: "dirs ?b \<subseteq> insert ?D (dirs ?b)"
    by auto
  have outs: "\<forall>k \<in> set uiPages. \<forall>q \<in> set (pagePaths I pm k). q \<notin> insert ?D (dirs ?b)"
    using ready by (simp add: initReady_def)
  have srcs: "\<forall>k \<in> set uiPages. htmlSource I pm ?b (htmlFileOf (snd (?found k))) \<noteq> None"
    using ready by (simp add: initReady_def)
  have Dn: "?D \<notin> fst ` set ([] :: (string \<times> string) list)"
    by simp
  from pages_ok[OF refl free tmpl e0 sub0 Dn outs srcs]
  obtain s' ws where every:
    "promiseAll (map (\<lambda>k. generatePage I pm k (?found k)) uiPages) ?b
             = (Inr (map (\<lambda>k. fst (?found k) \<noteq> None) uiPages), s')
     \<and> extends I pm (?b\<lparr>dirs := dirs s'\<rparr>) ([] @ ws) s'
     \<and> dirs s' \<subseteq> insert ?D (dirs ?b)
     \<and> dirs ?b \<subseteq> dirs s'
     \<and> map fst ws = concat (map (pagePaths I pm) uiPages)
     \<and> ((\<forall>k \<in> set uiPages. \<forall>p \<in> set (pageInputs I pm (?found k)).
                   p \<notin> fst ` set ([] :: (string \<times> string) list) \<and> p \<notin> set (concat (map (pagePaths I pm) uiPages)))
                \<longrightarrow> ws = concat (map (\<lambda>k. pageWrites I pm ?b k (?found k)) uiPages))"
    by (elim exE) (rule that)
  from every have run: "promiseAll (map (\<lambda>k. generatePage I pm k (?found k)) uiPages) ?b
             = (Inr (map (\<lambda>k. fst (?found k) \<noteq> None) uiPages), s')"
    by (rule conjunct1)
  from every have e: "extends I pm (?b\<lparr>dirs := dirs s'\<rparr>) ([] @ ws) s'"
    by (elim conjE)
  from every have up: "dirs s' \<subseteq> insert ?D (dirs ?b)"
    by (elim conjE)
  from every have low: "dirs ?b \<subseteq> dirs s'"
    by (elim conjE)
  from every have paths: "map fst ws = concat (map (pagePaths I pm) uiPages)"
    by (elim conjE)
  from every have content: "(\<forall>k \<in> set uiPages. \<forall>p \<in> set (pageInputs I pm (?found k)).
                   p \<notin> fst ` set ([] :: (string \<times> string) list) \<and> p \<notin> set (concat (map (pagePaths I pm) uiPages)))
                \<longrightarrow> ws = concat (map (\<lambda>k. pageWrites I pm ?b k (?found k)) uiPages)"
    by (elim conjE)
  have "init I pm s = (Inr (map (\<lambda>k. fst (?found k) \<noteq> None) uiPages), s')"
    using cp run by (simp add: init_def bindIO_def promiseAll2_def returnIO_def uiPages_def)
  moreover have "extends I pm
       (s\<lparr>dirs := dirs s', copied := copied s @ [(commonSource I pm, commonTarget I pm)]\<rparr>) ws s'"
    using e by (simp add: extends_def)
  moreover have "dirs s \<subseteq> dirs s'"
    using low by auto
  moreover have "dirs s' \<subseteq> insert ?D (insert (commonTarget I pm) (dirs s))"
    using up by auto
  moreover have "(\<forall>k \<in> set uiPages. \<forall>p \<in> set (pageInputs I pm (?found k)).
                   p \<notin> set (concat (map (pagePaths I pm) uiPages)))
                \<longrightarrow> ws = concat (map (\<lambda>k. pageWrites I pm s k (?found k)) uiPages)"
    using content by simp
  ultimately show ?thesis
    using paths by (intro exI[of _ s'] exI[of _ ws] conjI)
qed









subsection \<open>The entry point\<close>

text \<open>
  Claim C1, amended. From a state in which no I/O error can occur, \<^verbatim>\<open>init\<close>
  runs the static-asset copy and the four page generations (each writes its mount script
  and its HTML document) and returns four booleans, one per page kind, each saying
  whether an index module of that page was found when \<^verbatim>\<open>init\<close> was
  called, in the order popup, options, newtab, devtools. The write log lists the files in
  the order of the model's schedule.
\<close>

theorem C1_init_result:
  assumes "initReady I pm s"
  shows "fst (init I pm s) =
           Inr [find (existsSync s) (popupIndexList (projectPath pm)) \<noteq> None,
                find (existsSync s) (optionsIndexList (projectPath pm)) \<noteq> None,
                find (existsSync s) (newtabIndexList (projectPath pm)) \<noteq> None,
                find (existsSync s) (devtoolsIndexList (projectPath pm)) \<noteq> None]
       \<and> copied (snd (init I pm s)) = copied s @ [(commonSource I pm, commonTarget I pm)]
       \<and> map fst (written (snd (init I pm s))) =
           map fst (written s) @
           [pageScriptPath I pm popup, pageHtmlPath I pm popup,
            pageScriptPath I pm options, pageHtmlPath I pm options,
            pageScriptPath I pm newtab, pageHtmlPath I pm newtab,
            pageScriptPath I pm devtools, pageHtmlPath I pm devtools]"
proof -
  from init_ok[OF assms] obtain s' ws where
    run: "init I pm s = (Inr (map (\<lambda>k. fst (resolvePage pm k s) \<noteq> None) uiPages), s')"
    and e: "extends I pm
              (s\<lparr>dirs := dirs s', copied := copied s @ [(commonSource I pm, commonTarget I pm)]\<rparr>)
              ws s'"
    and paths: "map fst ws = concat (map (pagePaths I pm) uiPages)"
    by (elim exE conjE)
  from e have "written s' = written s @ ws"
    and "copied s' = copied s @ [(commonSource I pm, commonTarget I pm)]"
    by (simp_all add: extends_def)
  with run paths show ?thesis
    by (simp add: uiPages_def pagePaths_def resolvePage_def)
qed

text \<open>The example project meets the condition, and \<^verbatim>\<open>init\<close> on it:\<close>

lemma sample_ready: "initReady sampleImports sampleManifest sampleWorld"
  by (simp add: initReady_def sampleImports_def sampleManifest_def sampleWorld_def
                commonSource_def commonTarget_def uiPages_def pagePaths_def
                pageScriptPath_def pageHtmlPath_def templateOf_def cached_def
                htmlSource_def htmlFileOf_def resolvePage_def existsSync_def)

theorem C1_init_result_witness:
  "fst (init sampleImports sampleManifest sampleWorld) = Inr [True, False, True, False]
   \<and> copied (snd (init sampleImports sampleManifest sampleWorld)) =
       [(''/t/common'', ''/.plasmo/static/common'')]
   \<and> map fst (written (snd (init sampleImports sampleManifest sampleWorld))) =
       [''/.plasmo/static/popup.tsx'', ''/.plasmo/popup.html'',
        ''/.plasmo/static/options.tsx'', ''/.plasmo/options.html'',
        ''/.plasmo/static/newtab.tsx'', ''/.plasmo/newtab.html'',
        ''/.plasmo/static/devtools.tsx'', ''/.plasmo/devtools.html'']"
  using C1_init_result[OF sample_ready]
  by (simp add: sampleImports_def sampleManifest_def sampleWorld_def
                commonSource_def commonTarget_def
                pageScriptPath_def pageHtmlPath_def existsSync_def)

text \<open>
  The claim as stated, with the order popup, options, devtools, newtab, fails on the
  example project: it has an index module for newtab and none for devtools, so that order
  would give true, false, false, true, which is not what \<^verbatim>\<open>init\<close>
  returns.
\<close>

theorem C1_init_order_counterexample:
  "(find (existsSync sampleWorld) (popupIndexList (projectPath sampleManifest)) \<noteq> None) = True
   \<and> (find (existsSync sampleWorld) (optionsIndexList (projectPath sampleManifest)) \<noteq> None) = False
   \<and> (find (existsSync sampleWorld) (devtoolsIndexList (projectPath sampleManifest)) \<noteq> None) = False
   \<and> (find (existsSync sampleWorld) (newtabIndexList (projectPath sampleManifest)) \<noteq> None) = True
   \<and> fst (init sampleImports sampleManifest sampleWorld) \<noteq> Inr [True, False, False, True]"
proof -
  from init_ok[OF sample_ready] obtain s' where
    "init sampleImports sampleManifest sampleWorld =
       (Inr (map (\<lambda>k. fst (resolvePage sampleManifest k sampleWorld) \<noteq> None) uiPages), s')"
    by (elim exE conjE)
  then show ?thesis
    by (simp add: uiPages_def resolvePage_def sampleManifest_def sampleWorld_def existsSync_def)
qed

subsection \<open>Running the scaffolder again\<close>

lemma rerun_same:
  assumes ready: "initReady I pm s"
    and sep: "initSeparated I pm s"
    and fs: "files s1' = files (snd (init I pm s))"
    and ds: "dirs s1' = dirs (snd (init I pm s))"
    and tm: "\<And>g. path_resolve I (staticScaffoldPath pm) g
                    \<notin> set (concat (map (pagePaths I pm) uiPages)) \<Longrightarrow>
                  templateOf I pm s1' g = templateOf I pm s g"
  shows "\<exists>W. fst (init I pm s) = Inr (map (\<lambda>k. fst (resolvePage pm k s) \<noteq> None) uiPages)
           \<and> fst (init I pm s1') = fst (init I pm s)
           \<and> files (snd (init I pm s1')) = files (snd (init I pm s))
           \<and> written (snd (init I pm s)) = written s @ W
           \<and> written (snd (init I pm s1')) = written s1' @ W"
proof -
  let ?D = "staticDirectory (commonPath pm)"
  let ?Ct = "commonTarget I pm"
  let ?outs = "set (concat (map (pagePaths I pm) uiPages))"
  let ?U = "\<lambda>m ws. foldl (\<lambda>f (q, c). f(q \<mapsto> c)) m (ws :: (string \<times> string) list)"
  from init_ok[OF ready] obtain s1 W where
    run: "init I pm s = (Inr (map (\<lambda>k. fst (resolvePage pm k s) \<noteq> None) uiPages), s1)"
    and e: "extends I pm
              (s\<lparr>dirs := dirs s1, copied := copied s @ [(commonSource I pm, commonTarget I pm)]\<rparr>)
              W s1"
    and low: "dirs s \<subseteq> dirs s1"
    and up: "dirs s1 \<subseteq> insert ?D (insert ?Ct (dirs s))"
    and paths: "map fst W = concat (map (pagePaths I pm) uiPages)"
    and content: "(\<forall>k \<in> set uiPages. \<forall>p \<in> set (pageInputs I pm (resolvePage pm k s)).
                     p \<notin> ?outs)
                  \<longrightarrow> W = concat (map (\<lambda>k. pageWrites I pm s k (resolvePage pm k s)) uiPages)"
    by (elim exE conjE)
  have s1: "snd (init I pm s) = s1" using run by simp
  have outsW: "fst ` set W = ?outs"
    using paths by (metis set_map)
  have sepI: "\<forall>k \<in> set uiPages. \<forall>p \<in> set (pageInputs I pm (resolvePage pm k s)). p \<notin> ?outs"
    using sep by (simp add: initSeparated_def)
  with content have W: "W = concat (map (\<lambda>k. pageWrites I pm s k (resolvePage pm k s)) uiPages)"
    by blast
  have files1: "files s1 = ?U (files s) W"
    using e by (simp add: extends_def)
  have f1: "files s1' = ?U (files s) W"
    using fs s1 files1 by simp
  have d1: "dirs s1' = dirs s1"
    using ds s1 by simp
  have cand: "existsSync s1' p = existsSync s p"
    if "k \<in> set uiPages"
      and "p \<in> set (indexList (projectPath pm) k) \<union> set (htmlList (projectPath pm) k)" for k p
  proof -
    from sep that have p: "p \<notin> ?outs" "p \<noteq> ?D" "p \<noteq> ?Ct"
      by (auto simp: initSeparated_def)
    then have "files s1' p = files s p"
      using f1 outsW by (simp add: foldl_upd_other)
    moreover have "p \<in> dirs s1' \<longleftrightarrow> p \<in> dirs s"
      using d1 low up p by auto
    ultimately show ?thesis
      by (simp add: existsSync_def)
  qed
  have res: "resolvePage pm k s1' = resolvePage pm k s" if "k \<in> set uiPages" for k
  proof -
    have "find (existsSync s1') (indexList (projectPath pm) k)
            = find (existsSync s) (indexList (projectPath pm) k)"
      using cand[OF that] by (intro find_cong) auto
    moreover have "find (existsSync s1') (htmlList (projectPath pm) k)
            = find (existsSync s) (htmlList (projectPath pm) k)"
      using cand[OF that] by (intro find_cong) auto
    ultimately show ?thesis
      by (simp add: resolvePage_def)
  qed
  have tidx: "templateOf I pm s1' (''index'' @ mountExt pm)
                = templateOf I pm s (''index'' @ mountExt pm)"
  proof (rule tm)
    from sepI have "\<forall>p \<in> set (pageInputs I pm (resolvePage pm popup s)). p \<notin> ?outs"
      by (simp add: uiPages_def)
    then show "path_resolve I (staticScaffoldPath pm) (''index'' @ mountExt pm) \<notin> ?outs"
      by (simp add: pageInputs_def)
  qed
  have hsrc: "htmlSource I pm s1' (htmlFileOf (snd (resolvePage pm k s)))
                = htmlSource I pm s (htmlFileOf (snd (resolvePage pm k s)))"
    if k: "k \<in> set uiPages" for k
  proof -
    let ?hf = "htmlFileOf (snd (resolvePage pm k s))"
    from sepI k have out: "htmlSourcePath I pm ?hf \<notin> ?outs"
      by (auto simp: pageInputs_def)
    show ?thesis
    proof (cases "truthyPath ?hf")
      case None
      with out have "path_resolve I (staticScaffoldPath pm) ''index.html'' \<notin> ?outs"
        by (simp add: htmlSourcePath_def)
      from tm[OF this] None show ?thesis
        by (simp add: htmlSource_def)
    next
      case (Some p)
      with out have "p \<notin> fst ` set W"
        using outsW by (simp add: htmlSourcePath_def)
      then have "files s1' p = files s p"
        using f1 by (simp add: foldl_upd_other)
      with Some show ?thesis
        by (simp add: htmlSource_def)
    qed
  qed
  have r1: "commonSource I pm \<in> dirs s1'"
    using ready low d1 by (auto simp: initReady_def)
  have "?Ct \<notin> fst ` set W"
    using ready outsW by (auto simp: initReady_def)
  then have r2: "files s1' ?Ct = None"
    using ready f1 by (simp add: foldl_upd_other initReady_def)
  have "?D \<notin> fst ` set W"
    using ready outsW by (auto simp: initReady_def)
  then have r3: "files s1' ?D = None"
    using ready f1 by (simp add: foldl_upd_other initReady_def)
  have r4: "\<forall>k \<in> set uiPages. \<forall>q \<in> set (pagePaths I pm k).
              q \<notin> dirs s1' \<and> q \<noteq> ?Ct \<and> q \<noteq> ?D"
  proof (intro ballI)
    fix k q assume "k \<in> set uiPages" "q \<in> set (pagePaths I pm k)"
    with ready have "q \<notin> dirs s" "q \<noteq> ?Ct" "q \<noteq> ?D"
      by (auto simp: initReady_def)
    with up d1 show "q \<notin> dirs s1' \<and> q \<noteq> ?Ct \<and> q \<noteq> ?D"
      by auto
  qed
  have r5: "templateOf I pm s1' (''index'' @ mountExt pm) \<noteq> None"
    using ready tidx by (simp add: initReady_def)
  have r6: "\<forall>k \<in> set uiPages.
              htmlSource I pm s1' (htmlFileOf (snd (resolvePage pm k s1'))) \<noteq> None"
  proof
    fix k assume k: "k \<in> set uiPages"
    with ready have "htmlSource I pm s (htmlFileOf (snd (resolvePage pm k s))) \<noteq> None"
      by (simp add: initReady_def)
    with hsrc[OF k] res[OF k]
    show "htmlSource I pm s1' (htmlFileOf (snd (resolvePage pm k s1'))) \<noteq> None"
      by simp
  qed
  have ready': "initReady I pm s1'"
    unfolding initReady_def using r1 r2 r3 r4 r5 r6 by (intro conjI)
  from init_ok[OF ready'] obtain s2 W' where
    run': "init I pm s1' = (Inr (map (\<lambda>k. fst (resolvePage pm k s1') \<noteq> None) uiPages), s2)"
    and e': "extends I pm
              (s1'\<lparr>dirs := dirs s2, copied := copied s1' @ [(commonSource I pm, commonTarget I pm)]\<rparr>)
              W' s2"
    and content': "(\<forall>k \<in> set uiPages. \<forall>p \<in> set (pageInputs I pm (resolvePage pm k s1')).
                     p \<notin> ?outs)
                  \<longrightarrow> W' = concat (map (\<lambda>k. pageWrites I pm s1' k (resolvePage pm k s1')) uiPages)"
    by (elim exE conjE)
  have "\<forall>k \<in> set uiPages. \<forall>p \<in> set (pageInputs I pm (resolvePage pm k s1')). p \<notin> ?outs"
    using sepI res by simp
  with content' have "W' = concat (map (\<lambda>k. pageWrites I pm s1' k (resolvePage pm k s1')) uiPages)"
    by blast
  also have "\<dots> = concat (map (\<lambda>k. pageWrites I pm s k (resolvePage pm k s)) uiPages)"
  proof -
    have "pageWrites I pm s1' k (resolvePage pm k s1') = pageWrites I pm s k (resolvePage pm k s)"
      if "k \<in> set uiPages" for k
      using res[OF that] hsrc[OF that] tidx by (simp add: pageWrites_def)
    then show ?thesis
      by (metis (no_types, lifting) map_cong)
  qed
  finally have W': "W' = W" using W by simp
  have same_result: "map (\<lambda>k. fst (resolvePage pm k s1') \<noteq> None) uiPages
                       = map (\<lambda>k. fst (resolvePage pm k s) \<noteq> None) uiPages"
    using res by simp
  have "files s2 = ?U (files s1') W"
    using e' W' by (simp add: extends_def)
  also have "\<dots> = ?U (files s) W"
    unfolding f1 by (rule foldl_upd_twice)
  finally have "files s2 = files s1"
    using files1 by simp
  moreover have "written s1 = written s @ W"
    using e by (simp add: extends_def)
  moreover have "written s2 = written s1' @ W"
    using e' W' by (simp add: extends_def)
  ultimately show ?thesis
    using run run' same_result by (intro exI[of _ W]) simp
qed

text \<open>
  Claim C9. Let \<^verbatim>\<open>init\<close> run from a state in which no I/O error can occur,
  with a fresh cache, and in which no input is a path the run writes: the inputs of a
  second run are then those of the first. A second run on the state the first has left,
  by a new scaffolder (empty cache) or by the same one (cache kept), returns the same
  result, performs the same writes with the same contents, and leaves every file as the
  first run left it.
\<close>

theorem C9_rerun_idempotent:
  assumes "initReady I pm s"
    and "initSeparated I pm s"
    and "scaffoldCache s = Map.empty"
    and "s1 = snd (init I pm s)"
  shows "fst (init I pm s) = Inr (map (\<lambda>k. fst (resolvePage pm k s) \<noteq> None) uiPages)
       \<and> fst (init I pm (s1\<lparr>scaffoldCache := Map.empty\<rparr>)) = fst (init I pm s)
       \<and> files (snd (init I pm (s1\<lparr>scaffoldCache := Map.empty\<rparr>))) = files s1
       \<and> drop (length (written s1)) (written (snd (init I pm (s1\<lparr>scaffoldCache := Map.empty\<rparr>))))
           = drop (length (written s)) (written s1)
       \<and> fst (init I pm s1) = fst (init I pm s)
       \<and> files (snd (init I pm s1)) = files s1
       \<and> drop (length (written s1)) (written (snd (init I pm s1)))
           = drop (length (written s)) (written s1)"
proof -
  let ?outs = "set (concat (map (pagePaths I pm) uiPages))"
  from init_ok[OF assms(1)] obtain s' W where
    run: "init I pm s = (Inr (map (\<lambda>k. fst (resolvePage pm k s) \<noteq> None) uiPages), s')"
    and e: "extends I pm
              (s\<lparr>dirs := dirs s', copied := copied s @ [(commonSource I pm, commonTarget I pm)]\<rparr>)
              W s'"
    and paths: "map fst W = concat (map (pagePaths I pm) uiPages)"
    by (elim exE conjE)
  have s1: "s1 = s'" using run assms(4) by simp
  have outsW: "fst ` set W = ?outs"
    using paths by (metis set_map)
  have keep: "templateOf I pm s1 g = templateOf I pm s g"
    if "path_resolve I (staticScaffoldPath pm) g \<notin> ?outs" for g
    using e that outsW s1 by (simp add: extends_def)
  have fresh: "templateOf I pm (s1\<lparr>scaffoldCache := Map.empty\<rparr>) g = templateOf I pm s g"
    if "path_resolve I (staticScaffoldPath pm) g \<notin> ?outs" for g
  proof -
    have "files s1 (path_resolve I (staticScaffoldPath pm) g)
            = files s (path_resolve I (staticScaffoldPath pm) g)"
      using e that outsW s1 by (simp add: extends_def foldl_upd_other)
    then show ?thesis
      using assms(3) by (simp add: templateOf_def cached_def)
  qed
  from rerun_same[OF assms(1,2) _ _ fresh]
  obtain Wa where a: "fst (init I pm s) = Inr (map (\<lambda>k. fst (resolvePage pm k s) \<noteq> None) uiPages)"
      "fst (init I pm (s1\<lparr>scaffoldCache := Map.empty\<rparr>)) = fst (init I pm s)"
      "files (snd (init I pm (s1\<lparr>scaffoldCache := Map.empty\<rparr>))) = files s1"
      "written s1 = written s @ Wa"
      "written (snd (init I pm (s1\<lparr>scaffoldCache := Map.empty\<rparr>))) = written s1 @ Wa"
    using assms(4) by auto
  from rerun_same[OF assms(1,2) _ _ keep]
  obtain Wb where b: "fst (init I pm s1) = fst (init I pm s)"
      "files (snd (init I pm s1)) = files s1"
      "written s1 = written s @ Wb"
      "written (snd (init I pm s1)) = written s1 @ Wb"
    using assms(4) by auto
  from a b show ?thesis by simp
qed

text \<open>The theorem on the example project:\<close>

lemma sample_separated: "initSeparated sampleImports sampleManifest sampleWorld"
  by (simp add: initSeparated_def sampleImports_def sampleManifest_def sampleWorld_def
                commonTarget_def uiPages_def pagePaths_def pageInputs_def
                pageScriptPath_def pageHtmlPath_def htmlSourcePath_def
                htmlFileOf_def resolvePage_def existsSync_def)

theorem C9_rerun_idempotent_witness:
  "fst (init sampleImports sampleManifest sampleWorld) = Inr [True, False, True, False]
   \<and> fst (init sampleImports sampleManifest
            ((snd (init sampleImports sampleManifest sampleWorld))\<lparr>scaffoldCache := Map.empty\<rparr>))
       = Inr [True, False, True, False]
   \<and> files (snd (init sampleImports sampleManifest
            ((snd (init sampleImports sampleManifest sampleWorld))\<lparr>scaffoldCache := Map.empty\<rparr>)))
       = files (snd (init sampleImports sampleManifest sampleWorld))
   \<and> fst (init sampleImports sampleManifest (snd (init sampleImports sampleManifest sampleWorld)))
       = Inr [True, False, True, False]
   \<and> files (snd (init sampleImports sampleManifest
            (snd (init sampleImports sampleManifest sampleWorld))))
       = files (snd (init sampleImports sampleManifest sampleWorld))"
proof -
  have "scaffoldCache sampleWorld = Map.empty"
    by (simp add: sampleWorld_def)
  from C9_rerun_idempotent[OF sample_ready sample_separated this refl]
  show ?thesis
    by (simp add: uiPages_def resolvePage_def sampleManifest_def sampleWorld_def existsSync_def)
qed

end
